theory Spec2Isabelle
  imports Complex_Main
begin

section \<open>JavaScript numbers\<close>

text \<open>
  Every numeric variable of \<^verbatim>\<open>NeuronSimulator.tsx\<close> is a JavaScript \<^verbatim>\<open>number\<close>.
  A finite number is idealised as a real (rounding and the sign of zero are not
  modelled, and overflow to an infinity only where a literal is parsed); the three
  special values are kept, because \<^verbatim>\<open>parseFloat\<close> can deliver them and the code
  tests for one of them with \<^verbatim>\<open>isNaN\<close>.
\<close>

datatype jsnum = NaN | NegInf | Fin real | PosInf

fun js_neg :: "jsnum \<Rightarrow> jsnum" where
  "js_neg NaN = NaN"
| "js_neg NegInf = PosInf"
| "js_neg PosInf = NegInf"
| "js_neg (Fin a) = Fin (- a)"

fun js_add :: "jsnum \<Rightarrow> jsnum \<Rightarrow> jsnum" where
  "js_add NaN y = NaN"
| "js_add x NaN = NaN"
| "js_add PosInf NegInf = NaN"
| "js_add NegInf PosInf = NaN"
| "js_add PosInf y = PosInf"
| "js_add x PosInf = PosInf"
| "js_add NegInf y = NegInf"
| "js_add x NegInf = NegInf"
| "js_add (Fin a) (Fin b) = Fin (a + b)"

definition js_sub :: "jsnum \<Rightarrow> jsnum \<Rightarrow> jsnum" where
  "js_sub x y = js_add x (js_neg y)"

fun js_mul :: "jsnum \<Rightarrow> jsnum \<Rightarrow> jsnum" where
  "js_mul NaN y = NaN"
| "js_mul x NaN = NaN"
| "js_mul (Fin a) (Fin b) = Fin (a * b)"
| "js_mul (Fin a) PosInf = (if a = 0 then NaN else if 0 < a then PosInf else NegInf)"
| "js_mul (Fin a) NegInf = (if a = 0 then NaN else if 0 < a then NegInf else PosInf)"
| "js_mul PosInf (Fin b) = (if b = 0 then NaN else if 0 < b then PosInf else NegInf)"
| "js_mul NegInf (Fin b) = (if b = 0 then NaN else if 0 < b then NegInf else PosInf)"
| "js_mul PosInf PosInf = PosInf"
| "js_mul NegInf NegInf = PosInf"
| "js_mul PosInf NegInf = NegInf"
| "js_mul NegInf PosInf = NegInf"

text \<open>Comparisons with \<^verbatim>\<open>NaN\<close> are false.\<close>

fun js_le :: "jsnum \<Rightarrow> jsnum \<Rightarrow> bool" where
  "js_le NaN y = False"
| "js_le x NaN = False"
| "js_le NegInf y = True"
| "js_le x PosInf = True"
| "js_le (Fin a) (Fin b) = (a \<le> b)"
| "js_le PosInf y = False"
| "js_le x NegInf = False"

fun js_lt :: "jsnum \<Rightarrow> jsnum \<Rightarrow> bool" where
  "js_lt NaN y = False"
| "js_lt x NaN = False"
| "js_lt PosInf y = False"
| "js_lt x NegInf = False"
| "js_lt (Fin a) (Fin b) = (a < b)"
| "js_lt NegInf y = True"
| "js_lt x PosInf = True"

definition js_ge :: "jsnum \<Rightarrow> jsnum \<Rightarrow> bool" where
  "js_ge x y = js_le y x"

text \<open>\<^verbatim>\<open>Math.max\<close> is \<^verbatim>\<open>NaN\<close> as soon as one argument is.\<close>

definition js_max :: "jsnum \<Rightarrow> jsnum \<Rightarrow> jsnum" where
  "js_max x y = (if x = NaN \<or> y = NaN then NaN else if js_le x y then y else x)"

definition isNaN :: "jsnum \<Rightarrow> bool" where
  "isNaN x = (x = NaN)"

subsection \<open>\<^verbatim>\<open>parseFloat\<close>\<close>

text \<open>
  \<^verbatim>\<open>parseFloat\<close> is the built-in of ECMAScript: leading white space is skipped, then
  the longest prefix that is a decimal literal (an optional sign, then
  \<^verbatim>\<open>Infinity\<close> or digits with an optional fraction and exponent) is read; the
  result is \<^verbatim>\<open>NaN\<close> when there is no such prefix. A literal whose value rounds
  beyond the largest double, that is a value of at least \<open>2 ^ 1024 - 2 ^ 970\<close>, is an
  infinity. A text is the list of its UTF-8 bytes, so the white space and line
  terminators of ECMAScript beyond ASCII (U+00A0, U+1680, U+2000 to U+200A, U+2028,
  U+2029, U+202F, U+205F, U+3000, U+FEFF) are sequences of two or three bytes.
\<close>

definition strWhiteSpaceChars :: "string list" where
  "strWhiteSpaceChars =
     [[CHR 0x09], [CHR 0x0A], [CHR 0x0B], [CHR 0x0C], [CHR 0x0D], [CHR 0x20],
      [CHR 0xC2, CHR 0xA0], [CHR 0xE1, CHR 0x9A, CHR 0x80],
      [CHR 0xE2, CHR 0x80, CHR 0x80], [CHR 0xE2, CHR 0x80, CHR 0x81],
      [CHR 0xE2, CHR 0x80, CHR 0x82], [CHR 0xE2, CHR 0x80, CHR 0x83],
      [CHR 0xE2, CHR 0x80, CHR 0x84], [CHR 0xE2, CHR 0x80, CHR 0x85],
      [CHR 0xE2, CHR 0x80, CHR 0x86], [CHR 0xE2, CHR 0x80, CHR 0x87],
      [CHR 0xE2, CHR 0x80, CHR 0x88], [CHR 0xE2, CHR 0x80, CHR 0x89],
      [CHR 0xE2, CHR 0x80, CHR 0x8A], [CHR 0xE2, CHR 0x80, CHR 0xA8],
      [CHR 0xE2, CHR 0x80, CHR 0xA9], [CHR 0xE2, CHR 0x80, CHR 0xAF],
      [CHR 0xE2, CHR 0x81, CHR 0x9F], [CHR 0xE3, CHR 0x80, CHR 0x80],
      [CHR 0xEF, CHR 0xBB, CHR 0xBF]]"

definition leadingWhiteSpace :: "string \<Rightarrow> string option" where
  "leadingWhiteSpace s = find (\<lambda>w. take (length w) s = w) strWhiteSpaceChars"

function trimLeadingWhiteSpace :: "string \<Rightarrow> string" where
  "trimLeadingWhiteSpace s =
     (case leadingWhiteSpace s of
        None \<Rightarrow> s
      | Some w \<Rightarrow> trimLeadingWhiteSpace (drop (length w) s))"
  by pat_completeness auto
termination
proof (relation "measure length")
  show "wf (measure length)" by simp
next
  fix s w
  assume "leadingWhiteSpace s = Some w"
  then have "w \<in> set strWhiteSpaceChars" and pre: "take (length w) s = w"
    by (auto simp: leadingWhiteSpace_def find_Some_iff)
  then have "w \<noteq> []" by (auto simp: strWhiteSpaceChars_def)
  then have pos: "0 < length w" by simp
  from pre have "length (take (length w) s) = length w" by simp
  then have "length w \<le> length s" by simp
  with pos have "length s - length w < length s" by arith
  then show "(drop (length w) s, s) \<in> measure length" by simp
qed

declare trimLeadingWhiteSpace.simps [simp del]

definition isDigit :: "char \<Rightarrow> bool" where
  "isDigit c = (c \<in> set ''0123456789'')"

definition digitVal :: "char \<Rightarrow> nat" where
  "digitVal c = length (takeWhile (\<lambda>d. d \<noteq> c) ''0123456789'')"

definition decimalDigits :: "string \<Rightarrow> nat" where
  "decimalDigits ds = foldl (\<lambda>acc c. 10 * acc + digitVal c) 0 ds"

definition exponentPart :: "real \<Rightarrow> string \<Rightarrow> real" where
  "exponentPart m r =
     (case r of
        [] \<Rightarrow> m
      | e # t \<Rightarrow>
          if e = CHR ''e'' \<or> e = CHR ''E'' then
            (case t of
               [] \<Rightarrow> m
             | sg # u \<Rightarrow>
                 if sg = CHR ''-'' then
                   (if takeWhile isDigit u = [] then m
                    else m / 10 ^ decimalDigits (takeWhile isDigit u))
                 else if sg = CHR ''+'' then
                   (if takeWhile isDigit u = [] then m
                    else m * 10 ^ decimalDigits (takeWhile isDigit u))
                 else
                   (if takeWhile isDigit t = [] then m
                    else m * 10 ^ decimalDigits (takeWhile isDigit t)))
          else m)"

text \<open>The number of a decimal value that is not negative: an infinity on overflow.\<close>

definition roundToNumber :: "real \<Rightarrow> jsnum" where
  "roundToNumber m = (if 2 ^ 1024 - 2 ^ 970 \<le> m then PosInf else Fin m)"

definition strUnsignedDecimalLiteral :: "string \<Rightarrow> jsnum" where
  "strUnsignedDecimalLiteral s =
     (if take 8 s = ''Infinity'' then PosInf
      else
        let ip = takeWhile isDigit s;
            r1 = dropWhile isDigit s;
            fp = (case r1 of [] \<Rightarrow> [] | c # t \<Rightarrow> if c = CHR ''.'' then takeWhile isDigit t else []);
            r2 = (case r1 of [] \<Rightarrow> [] | c # t \<Rightarrow> if c = CHR ''.'' then dropWhile isDigit t else r1)
        in if ip = [] \<and> fp = [] then NaN
           else roundToNumber (exponentPart
                  (of_nat (decimalDigits ip) + of_nat (decimalDigits fp) / 10 ^ length fp) r2))"

definition parseFloat :: "string \<Rightarrow> jsnum" where
  "parseFloat s =
     (case trimLeadingWhiteSpace s of
        [] \<Rightarrow> NaN
      | c # u \<Rightarrow>
          if c = CHR ''-'' then js_neg (strUnsignedDecimalLiteral u)
          else if c = CHR ''+'' then strUnsignedDecimalLiteral u
          else strUnsignedDecimalLiteral (c # u))"

subsection \<open>The number input\<close>




section \<open>The component's state\<close>

text \<open>
  One entry of \<^verbatim>\<open>dataPoints\<close>, the object
  \<^verbatim>\<open>{ time, potential, threshold }\<close>; the fields carry a prefix because
  \<^verbatim>\<open>time\<close> and \<^verbatim>\<open>threshold\<close> are also state variables.
\<close>

record dataPoint =
  dp_time :: int
  dp_potential :: jsnum
  dp_threshold :: jsnum

text \<open>
  The state variables (\<^verbatim>\<open>useState\<close>), the three refs (\<^verbatim>\<open>useRef\<close>) and
  the memoised flag \<^verbatim>\<open>isRefractory\<close> (\<^verbatim>\<open>useMemo\<close>) of the component. The
  variables that only steer the drawing (\<^verbatim>\<open>showThreshold\<close>,
  \<^verbatim>\<open>showMembranePotential\<close>, \<^verbatim>\<open>useLogScale\<close>, \<^verbatim>\<open>potentialColor\<close>) and
  the handle of the animation frame are left out. The four sliders deliver finite
  numbers only, so the configuration is typed \<open>real\<close> and enters the arithmetic
  through \<open>Fin\<close>. \<^verbatim>\<open>time\<close> counts in steps of one from zero and is an \<open>int\<close>.
\<close>

record neuron =
  membranePotential :: jsnum
  threshold :: jsnum
  time :: int
  dataPoints :: "dataPoint list"
  spikeCount :: nat
  spikeTimes :: "int list"
  isRunning :: bool
  decayRate :: real
  thresholdDecayRate :: real
  minThreshold :: real
  spikeMagnitude :: real
  customSpikeInput :: string
  membranePotentialRef :: jsnum
  thresholdRef :: jsnum
  lastSpikeTimeRef :: "int option"
  isRefractory :: bool

definition refractoryPeriod :: int where
  "refractoryPeriod = 5"

definition timeStep :: int where
  "timeStep = 1"

definition MAX_SPIKES_DISPLAY :: nat where
  "MAX_SPIKES_DISPLAY = 20"

definition MAX_DATA_POINTS :: nat where
  "MAX_DATA_POINTS = 1000"

text \<open>The state at the first render.\<close>

definition initial :: neuron where
  "initial =
     \<lparr> membranePotential = Fin 0, threshold = Fin 1.0, time = 0, dataPoints = [],
       spikeCount = 0, spikeTimes = [], isRunning = True, decayRate = 0.01,
       thresholdDecayRate = 0.01, minThreshold = 1.0, spikeMagnitude = 0.5,
       customSpikeInput = [], membranePotentialRef = Fin 0, thresholdRef = Fin 1.0,
       lastSpikeTimeRef = None, isRefractory = False \<rparr>"

section \<open>Rendering\<close>

text \<open>
  After a handler has run, React renders the component again and runs its effects.
  The memo of \<^verbatim>\<open>isRefractory\<close> has the dependency list \<^verbatim>\<open>[time]\<close>: it is
  computed again only when \<^verbatim>\<open>time\<close> differs from the \<^verbatim>\<open>time\<close> of the render
  before (\<open>prev\<close>); otherwise the cached flag stays. The two effects copy
  \<^verbatim>\<open>membranePotential\<close> and \<^verbatim>\<open>threshold\<close> into their refs; the refs are written
  nowhere else, so after the effects each ref equals its state variable. Every event
  is followed by its own render, and every updater runs once.
\<close>

definition isRefractory_memo :: "neuron \<Rightarrow> bool" where
  "isRefractory_memo s =
     (case lastSpikeTimeRef s of
        None \<Rightarrow> False
      | Some t \<Rightarrow> time s - t < refractoryPeriod)"

definition render :: "neuron \<Rightarrow> neuron \<Rightarrow> neuron" where
  "render prev s =
     s\<lparr> isRefractory := (if time s = time prev then isRefractory s else isRefractory_memo s),
        membranePotentialRef := membranePotential s,
        thresholdRef := threshold s \<rparr>"

section \<open>The handlers\<close>

text \<open>
  A handler is modelled in two steps: the state updates it queues, applied in the order
  of the source to the state they find (the \<open>_updates\<close> function), then the render that
  follows. The refs therefore hold, while the updaters run, the values of the render
  before.
\<close>

text \<open>The updater given to \<^verbatim>\<open>setSpikeTimes\<close>; \<^verbatim>\<open>shift()\<close> drops the first entry.\<close>

definition updatedSpikeTimes :: "int \<Rightarrow> int list \<Rightarrow> int list" where
  "updatedSpikeTimes spikeTime prevSpikeTimes =
     (if length (prevSpikeTimes @ [spikeTime]) > MAX_SPIKES_DISPLAY
      then tl (prevSpikeTimes @ [spikeTime])
      else prevSpikeTimes @ [spikeTime])"

definition sendSpike_updates :: "neuron \<Rightarrow> neuron" where
  "sendSpike_updates s =
     (if isRefractory s then s
      else
        let newPotential = js_add (membranePotential s) (Fin (spikeMagnitude s))
        in if js_ge newPotential (thresholdRef s) then
             s\<lparr> lastSpikeTimeRef := Some (time s),
                threshold := js_add (threshold s) (Fin 0.1),
                spikeCount := spikeCount s + 1,
                spikeTimes := updatedSpikeTimes (time s) (spikeTimes s),
                membranePotential := Fin 0 \<rparr>
           else s\<lparr> membranePotential := newPotential \<rparr>)"

definition sendSpike :: "neuron \<Rightarrow> neuron" where
  "sendSpike s = render s (sendSpike_updates s)"

text \<open>\<^verbatim>\<open>slice(-n)\<close> keeps the last \<open>n\<close> entries.\<close>

definition slice_last :: "nat \<Rightarrow> 'a list \<Rightarrow> 'a list" where
  "slice_last n xs = drop (length xs - n) xs"

definition simulationLoop_updates :: "neuron \<Rightarrow> neuron" where
  "simulationLoop_updates s =
     (if \<not> isRunning s then s
      else
        let newTime = time s + timeStep;
            timeSinceLastSpike =
              (case lastSpikeTimeRef s of
                 Some t \<Rightarrow> Fin (of_int (newTime - t))
               | None \<Rightarrow> PosInf);
            currentlyRefractory = js_lt timeSinceLastSpike (Fin (of_int refractoryPeriod))
        in s\<lparr> threshold :=
                 (if \<not> currentlyRefractory
                  then js_max (Fin (minThreshold s))
                         (js_sub (threshold s) (Fin (thresholdDecayRate s)))
                  else threshold s),
               membranePotential :=
                 js_max (Fin 0)
                   (js_sub (membranePotential s)
                      (js_mul (Fin (decayRate s)) (Fin (of_int timeStep)))),
               dataPoints :=
                 slice_last MAX_DATA_POINTS
                   (dataPoints s @
                    [\<lparr> dp_time = newTime, dp_potential = membranePotentialRef s,
                       dp_threshold = thresholdRef s \<rparr>]),
               time := newTime \<rparr>)"

definition simulationLoop :: "neuron \<Rightarrow> neuron" where
  "simulationLoop s = render s (simulationLoop_updates s)"

definition resetSimulation_updates :: "neuron \<Rightarrow> neuron" where
  "resetSimulation_updates s =
     s\<lparr> membranePotential := Fin 0, threshold := Fin 1.0, time := 0, dataPoints := [],
        spikeCount := 0, spikeTimes := [], lastSpikeTimeRef := None \<rparr>"

definition resetSimulation :: "neuron \<Rightarrow> neuron" where
  "resetSimulation s = render s (resetSimulation_updates s)"

definition handleCustomSpikeInput_updates :: "neuron \<Rightarrow> neuron" where
  "handleCustomSpikeInput_updates s =
     (let customMagnitude = parseFloat (customSpikeInput s)
      in if \<not> isNaN customMagnitude then
           (let newPotential = js_add (membranePotential s) customMagnitude
            in if js_ge newPotential (thresholdRef s) then
                 s\<lparr> lastSpikeTimeRef := Some (time s),
                    threshold := js_add (threshold s) (Fin 0.1),
                    spikeCount := spikeCount s + 1,
                    spikeTimes := updatedSpikeTimes (time s) (spikeTimes s),
                    membranePotential := Fin 0,
                    customSpikeInput := [] \<rparr>
               else s\<lparr> membranePotential := newPotential, customSpikeInput := [] \<rparr>)
         else s)"

definition handleCustomSpikeInput :: "neuron \<Rightarrow> neuron" where
  "handleCustomSpikeInput s = render s (handleCustomSpikeInput_updates s)"

section \<open>Events\<close>

text \<open>
  What the user and the animation frame can do to the component: a frame
  (\<open>Frame\<close> calls \<^verbatim>\<open>simulationLoop\<close>), the three buttons, typing into the custom
  input, the pause button and the four sliders.
\<close>

datatype event =
    Frame
  | SendSpike
  | TypeCustom string
  | SendCustomSpike
  | Reset
  | PauseResume
  | SetDecayRate real
  | SetThresholdDecayRate real
  | SetMinThreshold real
  | SetSpikeMagnitude real

fun handle :: "event \<Rightarrow> neuron \<Rightarrow> neuron" where
  "handle Frame s = simulationLoop s"
| "handle SendSpike s = sendSpike s"
| "handle (TypeCustom txt) s = render s (s\<lparr> customSpikeInput := txt \<rparr>)"
| "handle SendCustomSpike s = handleCustomSpikeInput s"
| "handle Reset s = resetSimulation s"
| "handle PauseResume s = render s (s\<lparr> isRunning := \<not> isRunning s \<rparr>)"
| "handle (SetDecayRate v) s = render s (s\<lparr> decayRate := v \<rparr>)"
| "handle (SetThresholdDecayRate v) s = render s (s\<lparr> thresholdDecayRate := v \<rparr>)"
| "handle (SetMinThreshold v) s = render s (s\<lparr> minThreshold := v \<rparr>)"
| "handle (SetSpikeMagnitude v) s = render s (s\<lparr> spikeMagnitude := v \<rparr>)"

fun run :: "event list \<Rightarrow> neuron \<Rightarrow> neuron" where
  "run [] s = s"
| "run (e # es) s = run es (handle e s)"

section \<open>Observations and properties\<close>

text \<open>
  The engine state of the specification: potential, threshold, time, samples, spike
  count, spike log and the time of the last spike.
\<close>

definition engineState ::
  "neuron \<Rightarrow> jsnum \<times> jsnum \<times> int \<times> dataPoint list \<times> nat \<times> int list \<times> int option" where
  "engineState s =
     (membranePotential s, threshold s, time s, dataPoints s, spikeCount s, spikeTimes s,
      lastSpikeTimeRef s)"

text \<open>A number that is neither \<^verbatim>\<open>NaN\<close> nor an infinity.\<close>

definition finiteNumber :: "jsnum \<Rightarrow> bool" where
  "finiteNumber x = (case x of Fin r \<Rightarrow> True | _ \<Rightarrow> False)"

text \<open>
  What holds of every state the component can reach: the refs equal their state
  variables, time is not negative, a set cached flag is right (and never set at time
  zero), the threshold is finite and the two buffers are within their caps.
\<close>

definition synced :: "neuron \<Rightarrow> bool" where
  "synced s = (membranePotentialRef s = membranePotential s \<and> thresholdRef s = threshold s)"

definition consistent :: "neuron \<Rightarrow> bool" where
  "consistent s =
     (synced s \<and> 0 \<le> time s \<and> (isRefractory s \<longrightarrow> isRefractory_memo s \<and> time s \<noteq> 0) \<and>
      finiteNumber (threshold s) \<and>
      length (spikeTimes s) \<le> MAX_SPIKES_DISPLAY \<and> length (dataPoints s) \<le> MAX_DATA_POINTS)"

text \<open>
  The two outcomes of a stimulus, from state \<open>s\<close> to state \<open>s'\<close>: a spike (the
  time of the call is appended to the spike log, which keeps its last 20 entries), or
  the accumulation of the new potential. \<open>stimulated\<close> says that the comparison of the
  new potential with the threshold selects one of them, and that the other did not
  happen.
\<close>

definition spikeFired :: "neuron \<Rightarrow> neuron \<Rightarrow> bool" where
  "spikeFired s s' =
     (lastSpikeTimeRef s' = Some (time s) \<and>
      threshold s' = js_add (threshold s) (Fin 0.1) \<and>
      spikeCount s' = spikeCount s + 1 \<and>
      spikeTimes s' = slice_last 20 (spikeTimes s @ [time s]) \<and>
      membranePotential s' = Fin 0)"

definition accumulated :: "jsnum \<Rightarrow> neuron \<Rightarrow> neuron \<Rightarrow> bool" where
  "accumulated newPotential s s' =
     (membranePotential s' = newPotential \<and> threshold s' = threshold s \<and>
      spikeCount s' = spikeCount s \<and> spikeTimes s' = spikeTimes s \<and>
      lastSpikeTimeRef s' = lastSpikeTimeRef s)"

definition stimulated :: "jsnum \<Rightarrow> neuron \<Rightarrow> neuron \<Rightarrow> bool" where
  "stimulated magnitude s s' =
     (if js_ge (js_add (membranePotential s) magnitude) (threshold s)
      then spikeFired s s' \<and> \<not> accumulated (js_add (membranePotential s) magnitude) s s'
      else accumulated (js_add (membranePotential s) magnitude) s s' \<and> \<not> spikeFired s s')"

text \<open>
  Stimuli that do not lower the potential: a custom text that parses to a finite number
  at least zero (or does not parse, and is dropped), a slider value at least zero.
\<close>

definition nonnegNumber :: "jsnum \<Rightarrow> bool" where
  "nonnegNumber x = (case x of Fin r \<Rightarrow> 0 \<le> r | _ \<Rightarrow> False)"

fun nonnegStimulus :: "event \<Rightarrow> bool" where
  "nonnegStimulus (TypeCustom txt) = (parseFloat txt = NaN \<or> nonnegNumber (parseFloat txt))"
| "nonnegStimulus (SetSpikeMagnitude v) = (0 \<le> v)"
| "nonnegStimulus e = True"

definition nonnegState :: "neuron \<Rightarrow> bool" where
  "nonnegState s =
     (nonnegNumber (membranePotential s) \<and> 0 \<le> spikeMagnitude s \<and>
      (parseFloat (customSpikeInput s) = NaN \<or> nonnegNumber (parseFloat (customSpikeInput s))))"

text \<open>The threshold floor, and the events that are ticks or stimuli.\<close>

definition floorHolds :: "neuron \<Rightarrow> bool" where
  "floorHolds s = js_ge (threshold s) (Fin (minThreshold s))"

fun tickOrStimulate :: "event \<Rightarrow> bool" where
  "tickOrStimulate Frame = True"
| "tickOrStimulate SendSpike = True"
| "tickOrStimulate (TypeCustom txt) = True"
| "tickOrStimulate SendCustomSpike = True"
| "tickOrStimulate e = False"

text \<open>
  The histories a run leaves behind, kept beside the state to state what the capped
  buffers hold: the time of every call that raised \<^verbatim>\<open>spikeCount\<close> by one, and
  the entry every tick appended to \<^verbatim>\<open>dataPoints\<close>, both since the last reset.
\<close>

fun spikeLog :: "event list \<Rightarrow> neuron \<Rightarrow> int list \<Rightarrow> int list" where
  "spikeLog [] s acc = acc"
| "spikeLog (e # es) s acc =
     spikeLog es (handle e s)
       (if e = Reset then []
        else if spikeCount (handle e s) = spikeCount s + 1 then acc @ [time s]
        else acc)"

fun sampleLog :: "event list \<Rightarrow> neuron \<Rightarrow> dataPoint list \<Rightarrow> dataPoint list" where
  "sampleLog [] s acc = acc"
| "sampleLog (e # es) s acc =
     sampleLog es (handle e s)
       (if e = Reset then []
        else if time (handle e s) = time s + 1 then acc @ [last (dataPoints (handle e s))]
        else acc)"

section \<open>Basic facts\<close>

lemmas handler_defs =
  render_def sendSpike_def sendSpike_updates_def simulationLoop_def simulationLoop_updates_def
  resetSimulation_def resetSimulation_updates_def handleCustomSpikeInput_def
  handleCustomSpikeInput_updates_def

lemmas constant_defs =
  refractoryPeriod_def timeStep_def MAX_SPIKES_DISPLAY_def MAX_DATA_POINTS_def

lemmas number_defs = js_sub_def js_ge_def js_max_def isNaN_def

lemmas parse_defs =
  parseFloat_def strUnsignedDecimalLiteral_def exponentPart_def decimalDigits_def digitVal_def
  isDigit_def roundToNumber_def trimLeadingWhiteSpace.simps leadingWhiteSpace_def
  strWhiteSpaceChars_def

lemma run_append: "run (xs @ ys) s = run ys (run xs s)"
  by (induction xs arbitrary: s) simp_all

lemma finiteNumber_iff: "finiteNumber x \<longleftrightarrow> (\<exists>r. x = Fin r)"
  by (cases x) (simp_all add: finiteNumber_def)

lemma length_updatedSpikeTimes:
  "length xs \<le> MAX_SPIKES_DISPLAY \<Longrightarrow> length (updatedSpikeTimes t xs) \<le> MAX_SPIKES_DISPLAY"
  by (simp add: updatedSpikeTimes_def)

lemma length_slice_last: "length (slice_last n xs) \<le> n"
  by (simp add: slice_last_def)

lemma slice_last_snoc:
  assumes "0 < n" and "length xs \<le> n"
  shows "slice_last n (xs @ [x]) = (if length xs = n then tl xs @ [x] else xs @ [x])"
proof (cases "length xs = n")
  case True
  with assms(1) have "xs \<noteq> []" by auto
  then have "drop (Suc 0) (xs @ [x]) = tl xs @ [x]" by (cases xs) simp_all
  with True show ?thesis by (simp add: slice_last_def)
next
  case False
  with assms(2) show ?thesis by (simp add: slice_last_def)
qed

lemma updatedSpikeTimes_slice:
  assumes "length xs \<le> MAX_SPIKES_DISPLAY"
  shows "updatedSpikeTimes t xs = slice_last MAX_SPIKES_DISPLAY (xs @ [t])"
proof -
  have pos: "0 < MAX_SPIKES_DISPLAY" by (simp add: MAX_SPIKES_DISPLAY_def)
  have "xs \<noteq> []" if "length xs = MAX_SPIKES_DISPLAY"
    using that pos by auto
  then have "updatedSpikeTimes t xs =
      (if length xs = MAX_SPIKES_DISPLAY then tl xs @ [t] else xs @ [t])"
    using assms by (auto simp: updatedSpikeTimes_def)
  then show ?thesis by (simp add: slice_last_snoc [OF pos assms])
qed

lemma consistent_initial: "consistent initial"
  by (simp add: consistent_def synced_def finiteNumber_def initial_def constant_defs)

lemma consistent_handle: "consistent s \<Longrightarrow> consistent (handle e s)"
proof (cases e)
  case Frame
  assume "consistent s"
  then show ?thesis using Frame
    by (auto simp: consistent_def synced_def finiteNumber_iff handler_defs isRefractory_memo_def
        Let_def timeStep_def number_defs length_slice_last split: option.splits)
next
  case SendSpike
  assume "consistent s"
  then show ?thesis using SendSpike
    by (auto simp: consistent_def synced_def finiteNumber_iff handler_defs isRefractory_memo_def
        Let_def length_updatedSpikeTimes split: option.splits)
next
  case SendCustomSpike
  assume "consistent s"
  then show ?thesis using SendCustomSpike
    by (auto simp: consistent_def synced_def finiteNumber_iff handler_defs isRefractory_memo_def
        Let_def length_updatedSpikeTimes refractoryPeriod_def split: option.splits)
next
  case Reset
  assume "consistent s"
  then show ?thesis using Reset
    by (auto simp: consistent_def synced_def finiteNumber_iff handler_defs isRefractory_memo_def)
qed (auto simp: consistent_def synced_def render_def isRefractory_memo_def split: option.splits)

lemma consistent_run: "consistent s \<Longrightarrow> consistent (run evs s)"
  by (induction evs arbitrary: s) (simp_all add: consistent_handle)

lemma consistent_reachable: "consistent (run evs initial)"
  by (rule consistent_run [OF consistent_initial])

lemma nonnegNumber_iff: "nonnegNumber x \<longleftrightarrow> (\<exists>r. x = Fin r \<and> 0 \<le> r)"
  by (cases x) (simp_all add: nonnegNumber_def)

lemma parseFloat_Nil: "parseFloat [] = NaN"
  by (simp add: parseFloat_def trimLeadingWhiteSpace.simps leadingWhiteSpace_def
      strWhiteSpaceChars_def)

lemma nonnegState_initial: "nonnegState initial"
  by (simp add: nonnegState_def nonnegNumber_def initial_def parseFloat_Nil)

lemma nonnegState_handle:
  assumes "nonnegState s" and "nonnegStimulus e"
  shows "nonnegState (handle e s)"
proof (cases e)
  case Frame
  with assms show ?thesis
    by (auto simp: nonnegState_def nonnegNumber_iff handler_defs number_defs Let_def)
next
  case SendSpike
  with assms show ?thesis
    by (auto simp: nonnegState_def nonnegNumber_iff handler_defs Let_def)
next
  case SendCustomSpike
  with assms show ?thesis
    by (auto simp: nonnegState_def nonnegNumber_iff handler_defs Let_def isNaN_def parseFloat_Nil)
next
  case Reset
  with assms show ?thesis
    by (auto simp: nonnegState_def nonnegNumber_iff handler_defs)
qed (use assms in \<open>auto simp: nonnegState_def render_def\<close>)

lemma nonnegState_run:
  "nonnegState s \<Longrightarrow> list_all nonnegStimulus evs \<Longrightarrow> nonnegState (run evs s)"
  by (induction evs arbitrary: s) (simp_all add: nonnegState_handle)

lemma list_all_take: "list_all P xs \<Longrightarrow> list_all P (take n xs)"
  by (auto simp: list_all_iff dest: in_set_takeD)

lemma floorHolds_handle:
  assumes "floorHolds s" and "tickOrStimulate e"
  shows "floorHolds (handle e s)"
proof (cases e)
  case Frame
  with assms(1) show ?thesis
    by (cases "threshold s")
      (auto simp: floorHolds_def handler_defs number_defs Let_def split: option.splits)
next
  case SendSpike
  with assms(1) show ?thesis
    by (cases "threshold s") (auto simp: floorHolds_def handler_defs js_ge_def Let_def)
next
  case SendCustomSpike
  with assms(1) show ?thesis
    by (cases "threshold s") (auto simp: floorHolds_def handler_defs js_ge_def Let_def)
qed (use assms in \<open>auto simp: floorHolds_def render_def\<close>)

lemma floorHolds_run:
  "floorHolds s \<Longrightarrow> list_all tickOrStimulate evs \<Longrightarrow> floorHolds (run evs s)"
  by (induction evs arbitrary: s) (simp_all add: floorHolds_handle)

lemma slice_last_Nil: "slice_last n [] = []"
  by (simp add: slice_last_def)

lemma slice_last_slice_snoc:
  assumes "0 < n"
  shows "slice_last n (slice_last n xs @ [x]) = slice_last n (xs @ [x])"
proof (cases "length xs \<le> n")
  case True
  then show ?thesis by (simp add: slice_last_def)
next
  case False
  then have "Suc (length xs) - (length xs - n + n) + (length xs - n) = Suc (length xs) - n"
    by simp
  with False assms show ?thesis by (simp add: slice_last_def)
qed

lemma last_slice_last_snoc: "0 < n \<Longrightarrow> last (slice_last n (xs @ [x])) = x"
  by (simp add: slice_last_def)

lemma spikeTimes_handle:
  assumes "spikeTimes s = slice_last MAX_SPIKES_DISPLAY acc"
  shows "spikeTimes (handle e s) =
           slice_last MAX_SPIKES_DISPLAY
             (if e = Reset then []
              else if spikeCount (handle e s) = spikeCount s + 1 then acc @ [time s]
              else acc)"
proof -
  have pos: "0 < MAX_SPIKES_DISPLAY" by (simp add: MAX_SPIKES_DISPLAY_def)
  have len: "length (spikeTimes s) \<le> MAX_SPIKES_DISPLAY"
    unfolding assms by (rule length_slice_last)
  have push: "updatedSpikeTimes (time s) (spikeTimes s) =
                slice_last MAX_SPIKES_DISPLAY (acc @ [time s])"
    using updatedSpikeTimes_slice [OF len] slice_last_slice_snoc [OF pos] assms by simp
  show ?thesis
  proof (cases e)
    case SendSpike
    then show ?thesis using assms push
      by (simp add: sendSpike_def sendSpike_updates_def render_def Let_def)
  next
    case SendCustomSpike
    then show ?thesis using assms push
      by (simp add: handleCustomSpikeInput_def handleCustomSpikeInput_updates_def render_def
          Let_def)
  next
    case Frame
    then show ?thesis using assms
      by (simp add: simulationLoop_def simulationLoop_updates_def render_def Let_def)
  next
    case Reset
    then show ?thesis
      by (simp add: resetSimulation_def resetSimulation_updates_def render_def slice_last_Nil)
  qed (use assms in \<open>simp_all add: render_def\<close>)
qed

lemma spikeTimes_run:
  "spikeTimes s = slice_last MAX_SPIKES_DISPLAY acc \<Longrightarrow>
     spikeTimes (run evs s) = slice_last MAX_SPIKES_DISPLAY (spikeLog evs s acc)"
proof (induction evs arbitrary: s acc)
  case Nil
  then show ?case by simp
next
  case (Cons e es)
  show ?case
    using Cons.IH [OF spikeTimes_handle [OF Cons.prems, of e]] by simp
qed

lemma dataPoints_handle:
  assumes "dataPoints s = slice_last MAX_DATA_POINTS acc"
  shows "dataPoints (handle e s) =
           slice_last MAX_DATA_POINTS
             (if e = Reset then []
              else if time (handle e s) = time s + 1
                then acc @ [last (dataPoints (handle e s))]
              else acc)"
proof -
  have pos: "0 < MAX_DATA_POINTS" by (simp add: MAX_DATA_POINTS_def)
  show ?thesis
  proof (cases e)
    case Frame
    then show ?thesis using assms
      by (simp add: simulationLoop_def simulationLoop_updates_def render_def Let_def timeStep_def
          slice_last_slice_snoc [OF pos] last_slice_last_snoc [OF pos])
  next
    case SendSpike
    then show ?thesis using assms
      by (simp add: sendSpike_def sendSpike_updates_def render_def Let_def)
  next
    case SendCustomSpike
    then show ?thesis using assms
      by (simp add: handleCustomSpikeInput_def handleCustomSpikeInput_updates_def render_def
          Let_def)
  next
    case Reset
    then show ?thesis
      by (simp add: resetSimulation_def resetSimulation_updates_def render_def slice_last_Nil)
  qed (use assms in \<open>simp_all add: render_def\<close>)
qed

lemma dataPoints_run:
  "dataPoints s = slice_last MAX_DATA_POINTS acc \<Longrightarrow>
     dataPoints (run evs s) = slice_last MAX_DATA_POINTS (sampleLog evs s acc)"
proof (induction evs arbitrary: s acc)
  case Nil
  then show ?case by simp
next
  case (Cons e es)
  show ?case
    using Cons.IH [OF dataPoints_handle [OF Cons.prems, of e]] by simp
qed

lemma spikeCount_handle:
  "e \<noteq> Reset \<Longrightarrow>
     spikeCount (handle e s) = spikeCount s \<or> spikeCount (handle e s) = spikeCount s + 1"
  by (cases e) (simp_all add: handler_defs Let_def)

lemma spikeCount_Reset: "spikeCount (handle Reset s) = 0"
  by (simp add: handler_defs)

lemma length_spikeLog:
  "length acc = spikeCount s \<Longrightarrow> length (spikeLog evs s acc) = spikeCount (run evs s)"
proof (induction evs arbitrary: s acc)
  case Nil
  then show ?case by simp
next
  case (Cons e es)
  show ?case
  proof (cases "e = Reset")
    case True
    then show ?thesis
      using Cons.IH [of "[]" "handle Reset s"] spikeCount_Reset [of s] by simp
  next
    case False
    then show ?thesis
      using spikeCount_handle [OF False, of s] Cons.prems
        Cons.IH [of "acc @ [time s]" "handle e s"] Cons.IH [of acc "handle e s"]
      by auto
  qed
qed

lemma time_handle:
  "e \<noteq> Reset \<Longrightarrow> time (handle e s) = time s \<or> time (handle e s) = time s + 1"
  by (cases e) (simp_all add: handler_defs Let_def timeStep_def)

lemma time_Reset: "time (handle Reset s) = 0"
  by (simp add: handler_defs)

lemma length_sampleLog:
  "int (length acc) = time s \<Longrightarrow> int (length (sampleLog evs s acc)) = time (run evs s)"
proof (induction evs arbitrary: s acc)
  case Nil
  then show ?case by simp
next
  case (Cons e es)
  show ?case
  proof (cases "e = Reset")
    case True
    then show ?thesis
      using Cons.IH [of "[]" "handle Reset s"] time_Reset [of s] by simp
  next
    case False
    then show ?thesis
      using time_handle [OF False, of s] Cons.prems
        Cons.IH [of "acc @ [last (dataPoints (handle e s))]" "handle e s"]
        Cons.IH [of acc "handle e s"]
      by auto
  qed
qed

lemma sorted_spikeLog:
  "sorted acc \<Longrightarrow> \<forall>t\<in>set acc. t \<le> time s \<Longrightarrow> sorted (spikeLog evs s acc)"
proof (induction evs arbitrary: s acc)
  case Nil
  then show ?case by simp
next
  case (Cons e es)
  show ?case
  proof (cases "e = Reset")
    case True
    then show ?thesis using Cons.IH [of "[]" "handle Reset s"] by simp
  next
    case False
    from time_handle [OF False, of s] have mono: "time s \<le> time (handle e s)" by auto
    have "sorted (acc @ [time s])" using Cons.prems by (simp add: sorted_append)
    moreover have "\<forall>t\<in>set (acc @ [time s]). t \<le> time (handle e s)"
      using Cons.prems(2) mono by auto
    moreover have "\<forall>t\<in>set acc. t \<le> time (handle e s)"
      using Cons.prems(2) mono by auto
    ultimately show ?thesis
      using False Cons.prems(1) Cons.IH [of "acc @ [time s]" "handle e s"]
        Cons.IH [of acc "handle e s"]
      by simp
  qed
qed

section \<open>Reset\<close>

text \<open>
  C8. After any sequence of events, from any state, one reset leaves the engine state
  equal to the one of the first render: potential 0, threshold 1.0, time 0, no samples,
  spike count 0, no spike times, no last spike.
\<close>

theorem reset_restores_initial:
  "engineState (run (evs @ [Reset]) s) = (Fin 0, Fin 1.0, 0, [], 0, [], None) \<and>
   engineState (run (evs @ [Reset]) s) = engineState initial"
  by (simp add: run_append engineState_def resetSimulation_def resetSimulation_updates_def
      render_def initial_def)

theorem reset_restores_initial_witness:
  "engineState (run ([SendSpike, SendSpike, Frame] @ [Reset]) initial) =
     (Fin 0, Fin 1.0, 0, [], 0, [], None) \<and>
   spikeCount (run [SendSpike, SendSpike, Frame] initial) = 1"
  using reset_restores_initial [of "[SendSpike, SendSpike, Frame]" initial]
  by (simp add: handler_defs constant_defs number_defs initial_def updatedSpikeTimes_def
      slice_last_def)

text \<open>
  C10. A reset leaves the four configuration parameters and the running flag as they
  were.
\<close>

theorem reset_keeps_configuration:
  "decayRate (resetSimulation s) = decayRate s \<and>
   thresholdDecayRate (resetSimulation s) = thresholdDecayRate s \<and>
   minThreshold (resetSimulation s) = minThreshold s \<and>
   spikeMagnitude (resetSimulation s) = spikeMagnitude s \<and>
   isRunning (resetSimulation s) = isRunning s"
  by (simp add: resetSimulation_def resetSimulation_updates_def render_def)

theorem reset_keeps_configuration_witness:
  "decayRate (resetSimulation (run [SetDecayRate 0.05, PauseResume] initial)) = 0.05 \<and>
   isRunning (resetSimulation (run [SetDecayRate 0.05, PauseResume] initial)) = False"
  using reset_keeps_configuration [of "run [SetDecayRate 0.05, PauseResume] initial"]
  by (simp add: render_def initial_def)

section \<open>One tick\<close>

text \<open>
  C9. While the simulation runs, a tick adds one to the time, decides the refractory
  condition at the new time, and relaxes the threshold to
  \<open>max minThreshold (threshold - thresholdDecayRate)\<close> exactly when that condition is
  false. From a last spike at time 0 with threshold 1.1, floor 1.0 and rate 0.01, the
  threshold is still 1.1 after four ticks and is 1.09 after the fifth, at time 5, where
  \<open>5 - 0 < 5\<close> is false.
\<close>

theorem tick_relaxes_threshold:
  "(isRunning s \<longrightarrow>
      time (simulationLoop s) = time s + 1 \<and>
      threshold (simulationLoop s) =
        (if isRefractory_memo (s\<lparr>time := time s + 1\<rparr>) then threshold s
         else js_max (Fin (minThreshold s)) (js_sub (threshold s) (Fin (thresholdDecayRate s))))) \<and>
   (isRunning s \<and> lastSpikeTimeRef s = Some 0 \<and> time s = 0 \<and> threshold s = Fin 1.1 \<and>
    minThreshold s = 1.0 \<and> thresholdDecayRate s = 0.01 \<longrightarrow>
      time (run [Frame, Frame, Frame, Frame] s) = 4 \<and>
      threshold (run [Frame, Frame, Frame, Frame] s) = Fin 1.1 \<and>
      time (run [Frame, Frame, Frame, Frame, Frame] s) = 5 \<and>
      \<not> isRefractory_memo (run [Frame, Frame, Frame, Frame, Frame] s) \<and>
      threshold (run [Frame, Frame, Frame, Frame, Frame] s) = Fin 1.09)"
  by (simp add: simulationLoop_def simulationLoop_updates_def render_def isRefractory_memo_def
      Let_def constant_defs number_defs split: option.splits)

theorem tick_relaxes_threshold_witness:
  "isRunning (run [SendSpike, SendSpike] initial) \<and>
   lastSpikeTimeRef (run [SendSpike, SendSpike] initial) = Some 0 \<and>
   threshold (run [SendSpike, SendSpike] initial) = Fin 1.1 \<and>
   threshold (run [Frame, Frame, Frame, Frame, Frame] (run [SendSpike, SendSpike] initial)) = Fin 1.09"
  using tick_relaxes_threshold [of "run [SendSpike, SendSpike] initial"]
  by (simp add: handler_defs constant_defs number_defs initial_def updatedSpikeTimes_def
      isRefractory_memo_def)

section \<open>The custom input\<close>




section \<open>Stimuli while refractory\<close>

text \<open>
  C1 at a failing input. A spike fires at time 0 and two ticks pass, so the neuron is
  refractory (\<open>2 - 0 < 5\<close>, and the cached flag says so too). The send-spike action
  is dropped there and leaves the state as it is. The custom action has no refractory
  guard: submitting \<^verbatim>\<open>0.5\<close> raises the potential from 0 to 0.5.
\<close>

theorem custom_spike_ignores_refractory:
  "run [SendSpike, SendSpike, Frame, Frame, SendSpike] initial =
     run [SendSpike, SendSpike, Frame, Frame] initial \<and>
   isRefractory_memo (run [SendSpike, SendSpike, Frame, Frame, TypeCustom ''0.5''] initial) \<and>
   isRefractory (run [SendSpike, SendSpike, Frame, Frame, TypeCustom ''0.5''] initial) \<and>
   membranePotential (run [SendSpike, SendSpike, Frame, Frame, TypeCustom ''0.5''] initial) = Fin 0 \<and>
   membranePotential
     (run [SendSpike, SendSpike, Frame, Frame, TypeCustom ''0.5'', SendCustomSpike] initial) = Fin 0.5"
  by (simp add: handler_defs constant_defs number_defs initial_def updatedSpikeTimes_def
      slice_last_def isRefractory_memo_def parse_defs)

text \<open>
  The send-spike action is guarded by the cached flag, which is computed again only
  when \<^verbatim>\<open>time\<close> changes. Right after a spike, before the next tick, the flag is
  still false and a further click is applied.
\<close>

lemma sendSpike_stale_memo:
  "isRefractory_memo (run [SendSpike, SendSpike] initial) \<and>
   \<not> isRefractory (run [SendSpike, SendSpike] initial) \<and>
   membranePotential (run [SendSpike, SendSpike] initial) = Fin 0 \<and>
   membranePotential (run [SendSpike, SendSpike, SendSpike] initial) = Fin 0.5"
  by (simp add: handler_defs constant_defs number_defs initial_def updatedSpikeTimes_def
      isRefractory_memo_def)

section \<open>The sample of a tick\<close>

text \<open>
  C2, as stated, fails. After one stimulus of 0.5, a tick decays the potential to 0.49,
  but the sample it appends carries the potential 0.5: the updater reads
  \<^verbatim>\<open>membranePotentialRef.current\<close> and \<^verbatim>\<open>thresholdRef.current\<close>, which still
  hold the values of the render before the tick.
\<close>

theorem sample_post_decay_counterexample:
  "last (dataPoints (run [SendSpike, Frame] initial)) =
     \<lparr>dp_time = 1, dp_potential = Fin 0.5, dp_threshold = Fin 1.0\<rparr> \<and>
   membranePotential (run [SendSpike, Frame] initial) = Fin 0.49 \<and>
   dp_potential (last (dataPoints (run [SendSpike, Frame] initial))) \<noteq>
     membranePotential (run [SendSpike, Frame] initial)"
  by (simp add: handler_defs constant_defs number_defs initial_def slice_last_def)

text \<open>
  C2, amended. In every reachable state, while the simulation runs, a tick appends the
  sample whose time is the incremented time and whose potential and threshold are the
  values from before the tick's decay and relaxation steps; the oldest entry is dropped
  when the buffer already holds 1000 entries, and the buffer never exceeds 1000.
\<close>

theorem sample_records_previous_render:
  "isRunning (run evs initial) \<Longrightarrow>
     dataPoints (simulationLoop (run evs initial)) =
       (if length (dataPoints (run evs initial)) = MAX_DATA_POINTS
        then tl (dataPoints (run evs initial))
        else dataPoints (run evs initial)) @
       [\<lparr>dp_time = time (run evs initial) + 1,
         dp_potential = membranePotential (run evs initial),
         dp_threshold = threshold (run evs initial)\<rparr>] \<and>
     length (dataPoints (simulationLoop (run evs initial))) \<le> MAX_DATA_POINTS"
proof -
  assume running: "isRunning (run evs initial)"
  let ?s = "run evs initial"
  have c: "consistent ?s" by (rule consistent_reachable)
  then have refs: "membranePotentialRef ?s = membranePotential ?s" "thresholdRef ?s = threshold ?s"
    and len: "length (dataPoints ?s) \<le> MAX_DATA_POINTS"
    by (simp_all add: consistent_def synced_def)
  have pos: "0 < MAX_DATA_POINTS" by (simp add: MAX_DATA_POINTS_def)
  have eq: "dataPoints (simulationLoop ?s) =
          slice_last MAX_DATA_POINTS
            (dataPoints ?s @
             [\<lparr>dp_time = time ?s + 1, dp_potential = membranePotential ?s,
               dp_threshold = threshold ?s\<rparr>])"
    using running refs
    by (simp add: simulationLoop_def simulationLoop_updates_def render_def Let_def timeStep_def)
  have bound: "length (dataPoints (simulationLoop ?s)) \<le> MAX_DATA_POINTS"
    unfolding eq by (rule length_slice_last)
  have "dataPoints (simulationLoop ?s) =
          (if length (dataPoints ?s) = MAX_DATA_POINTS then tl (dataPoints ?s)
           else dataPoints ?s) @
          [\<lparr>dp_time = time ?s + 1, dp_potential = membranePotential ?s,
            dp_threshold = threshold ?s\<rparr>]"
    unfolding eq by (simp add: slice_last_snoc [OF pos len])
  with bound show ?thesis by (intro conjI)
qed

theorem sample_records_previous_render_witness:
  "isRunning (run [SendSpike] initial) \<and>
   dataPoints (simulationLoop (run [SendSpike] initial)) =
     [\<lparr>dp_time = 1, dp_potential = Fin 0.5, dp_threshold = Fin 1\<rparr>]"
  using sample_records_previous_render [of "[SendSpike]"]
  by (simp add: sendSpike_def sendSpike_updates_def render_def constant_defs number_defs initial_def)

section \<open>The outcomes of a stimulus\<close>

text \<open>
  C4. In every reachable state that is not refractory, a stimulus (the send-spike
  action with \<^verbatim>\<open>spikeMagnitude\<close>, or the custom action with a text that parses to
  a number) has exactly one of two outcomes, selected by
  \<open>potential + magnitude \<ge> threshold\<close>: a spike (last spike time set to the current
  time, threshold plus 0.1, spike count plus one, current time appended to the spike
  log, potential 0), or else the new potential with threshold, spike count, spike log
  and last spike time unchanged.
\<close>

theorem stimulate_outcomes:
  "\<not> isRefractory_memo (run evs initial) \<Longrightarrow>
     stimulated (Fin (spikeMagnitude (run evs initial))) (run evs initial)
       (run [SendSpike] (run evs initial)) \<and>
     (parseFloat txt \<noteq> NaN \<longrightarrow>
        stimulated (parseFloat txt) (run evs initial)
          (run [TypeCustom txt, SendCustomSpike] (run evs initial)))"
proof -
  assume nr: "\<not> isRefractory_memo (run evs initial)"
  let ?s = "run evs initial"
  have c: "consistent ?s" by (rule consistent_reachable)
  then have refs: "thresholdRef ?s = threshold ?s"
    and len: "length (spikeTimes ?s) \<le> MAX_SPIKES_DISPLAY"
    and flag: "\<not> isRefractory ?s"
    using nr by (auto simp: consistent_def synced_def)
  have cap: "updatedSpikeTimes (time ?s) (spikeTimes ?s) = slice_last 20 (spikeTimes ?s @ [time ?s])"
    using updatedSpikeTimes_slice [OF len] by (simp add: MAX_SPIKES_DISPLAY_def)
  have send: "stimulated (Fin (spikeMagnitude ?s)) ?s (run [SendSpike] ?s)"
    using refs flag cap
    by (simp add: stimulated_def spikeFired_def accumulated_def sendSpike_def
        sendSpike_updates_def render_def Let_def)
  have custom: "stimulated (parseFloat txt) ?s (run [TypeCustom txt, SendCustomSpike] ?s)"
    if "parseFloat txt \<noteq> NaN"
    using that refs cap
    by (simp add: stimulated_def spikeFired_def accumulated_def handleCustomSpikeInput_def
        handleCustomSpikeInput_updates_def render_def Let_def isNaN_def)
  from send custom show ?thesis by blast
qed

theorem stimulate_outcomes_witness:
  "\<not> isRefractory_memo (run [SendSpike] initial) \<and>
   membranePotential (run [SendSpike] (run [SendSpike] initial)) = Fin 0 \<and>
   threshold (run [SendSpike] (run [SendSpike] initial)) = Fin 1.1 \<and>
   spikeCount (run [SendSpike] (run [SendSpike] initial)) = 1 \<and>
   membranePotential (run [TypeCustom ''0.25'', SendCustomSpike] (run [SendSpike] initial)) = Fin 0.75"
  using stimulate_outcomes [of "[SendSpike]" "''0.25''"]
  by (simp add: stimulated_def spikeFired_def accumulated_def sendSpike_def sendSpike_updates_def
      render_def isRefractory_memo_def number_defs initial_def parse_defs)

section \<open>Non-negative potential\<close>

text \<open>
  C3, as stated, fails: the custom action adds a negative magnitude without a clamp, so
  from the initial state the text \<^verbatim>\<open>-1\<close> leaves the potential at -1.
\<close>

theorem negative_stimulus_counterexample:
  "parseFloat ''-1'' = Fin (- 1) \<and>
   membranePotential (run [TypeCustom ''-1'', SendCustomSpike] initial) = Fin (- 1) \<and>
   \<not> js_ge (membranePotential (run [TypeCustom ''-1'', SendCustomSpike] initial)) (Fin 0)"
  by (simp add: handler_defs number_defs initial_def parse_defs)

text \<open>
  C3, amended. For every sequence of events from the initial state in which every
  stimulus magnitude is finite and at least zero, the potential is at least zero after
  every event of the sequence.
\<close>

theorem potential_nonnegative:
  "list_all nonnegStimulus evs \<Longrightarrow>
     js_ge (membranePotential (run (take n evs) initial)) (Fin 0)"
proof -
  assume "list_all nonnegStimulus evs"
  then have "list_all nonnegStimulus (take n evs)" by (rule list_all_take)
  then have "nonnegState (run (take n evs) initial)"
    by (rule nonnegState_run [OF nonnegState_initial])
  then show ?thesis
    by (auto simp: nonnegState_def nonnegNumber_iff js_ge_def)
qed

theorem potential_nonnegative_witness:
  "list_all nonnegStimulus [TypeCustom ''0.25'', SendCustomSpike, Frame, SendSpike] \<and>
   js_ge (membranePotential (run [TypeCustom ''0.25'', SendCustomSpike, Frame, SendSpike] initial))
     (Fin 0)"
proof -
  have h: "list_all nonnegStimulus [TypeCustom ''0.25'', SendCustomSpike, Frame, SendSpike]"
    by (simp add: nonnegNumber_def parse_defs)
  show ?thesis using h potential_nonnegative [OF h, of 4] by simp
qed

section \<open>The threshold floor\<close>

text \<open>
  C5, as stated, fails: \<^verbatim>\<open>minThreshold\<close> raised to 2 and one stimulus later, the
  threshold is still 1; only the decay step of a tick clamps.
\<close>

theorem raised_floor_counterexample:
  "threshold (run [SetMinThreshold 2, SendSpike] initial) = Fin 1 \<and>
   minThreshold (run [SetMinThreshold 2, SendSpike] initial) = 2 \<and>
   \<not> js_ge (threshold (run [SetMinThreshold 2, SendSpike] initial))
       (Fin (minThreshold (run [SetMinThreshold 2, SendSpike] initial)))"
  by (simp add: handler_defs number_defs initial_def)

text \<open>
  C5, amended. The floor holds initially; ticks and stimuli keep
  \<open>threshold \<ge> minThreshold\<close> once it holds, after every call; lowering
  \<^verbatim>\<open>minThreshold\<close> keeps it. Raising \<^verbatim>\<open>minThreshold\<close> above the threshold
  breaks it. From then on a stimulus that does not fire and a refractory tick leave it
  as it is; a stimulus that fires adds 0.1 to the threshold and can restore it (with
  the floor raised to 1.05 it fails after the first stimulus and holds after the
  second, which fires); and after any events whatever a tick that is not refractory,
  with the simulation running, makes it hold.
\<close>

theorem threshold_floor:
  "floorHolds initial \<and>
   (floorHolds s \<and> list_all tickOrStimulate evs \<longrightarrow> floorHolds (run (take n evs) s)) \<and>
   (floorHolds s \<and> lo \<le> minThreshold s \<longrightarrow> floorHolds (handle (SetMinThreshold lo) s)) \<and>
   (js_lt (threshold s) (Fin hi) \<longrightarrow> \<not> floorHolds (handle (SetMinThreshold hi) s)) \<and>
   (spikeCount (handle SendSpike s) = spikeCount s \<longrightarrow>
      floorHolds (handle SendSpike s) = floorHolds s) \<and>
   (spikeCount (handle SendCustomSpike s) = spikeCount s \<longrightarrow>
      floorHolds (handle SendCustomSpike s) = floorHolds s) \<and>
   (isRefractory_memo (s\<lparr>time := time s + 1\<rparr>) \<longrightarrow>
      floorHolds (handle Frame s) = floorHolds s) \<and>
   \<not> floorHolds (run [SetMinThreshold 1.05, SendSpike] initial) \<and>
   floorHolds (run [SetMinThreshold 1.05, SendSpike, SendSpike] initial) \<and>
   (isRunning (run evs' initial) \<and>
    \<not> isRefractory_memo ((run evs' initial)\<lparr>time := time (run evs' initial) + 1\<rparr>) \<longrightarrow>
      floorHolds (handle Frame (run evs' initial)))"
proof (intro conjI impI)
  show "floorHolds initial"
    by (simp add: floorHolds_def initial_def js_ge_def)
next
  assume "floorHolds s \<and> list_all tickOrStimulate evs"
  then show "floorHolds (run (take n evs) s)"
    using floorHolds_run [of s "take n evs"] list_all_take [of tickOrStimulate evs n] by blast
next
  assume "floorHolds s \<and> lo \<le> minThreshold s"
  then show "floorHolds (handle (SetMinThreshold lo) s)"
    by (cases "threshold s") (auto simp: floorHolds_def render_def js_ge_def)
next
  assume "js_lt (threshold s) (Fin hi)"
  then show "\<not> floorHolds (handle (SetMinThreshold hi) s)"
    by (cases "threshold s") (auto simp: floorHolds_def render_def js_ge_def)
next
  assume "spikeCount (handle SendSpike s) = spikeCount s"
  then show "floorHolds (handle SendSpike s) = floorHolds s"
    by (auto simp: floorHolds_def sendSpike_def sendSpike_updates_def render_def Let_def
        split: if_splits)
next
  assume "spikeCount (handle SendCustomSpike s) = spikeCount s"
  then show "floorHolds (handle SendCustomSpike s) = floorHolds s"
    by (auto simp: floorHolds_def handleCustomSpikeInput_def handleCustomSpikeInput_updates_def
        render_def Let_def split: if_splits)
next
  assume "isRefractory_memo (s\<lparr>time := time s + 1\<rparr>)"
  then show "floorHolds (handle Frame s) = floorHolds s"
    by (auto simp: floorHolds_def simulationLoop_def simulationLoop_updates_def render_def
        isRefractory_memo_def Let_def constant_defs split: option.splits)
next
  show "\<not> floorHolds (run [SetMinThreshold 1.05, SendSpike] initial)"
    by (simp add: floorHolds_def handler_defs number_defs initial_def)
next
  show "floorHolds (run [SetMinThreshold 1.05, SendSpike, SendSpike] initial)"
    by (simp add: floorHolds_def handler_defs number_defs initial_def updatedSpikeTimes_def)
next
  let ?s = "run evs' initial"
  assume a: "isRunning ?s \<and> \<not> isRefractory_memo (?s\<lparr>time := time ?s + 1\<rparr>)"
  have "finiteNumber (threshold ?s)"
    using consistent_reachable [of evs'] by (simp add: consistent_def)
  then obtain r where "threshold ?s = Fin r" by (auto simp: finiteNumber_iff)
  with a show "floorHolds (handle Frame ?s)"
    by (auto simp: floorHolds_def handler_defs number_defs isRefractory_memo_def Let_def
        constant_defs split: option.splits)
qed

theorem threshold_floor_witness:
  "floorHolds (run [SendSpike, SendSpike] initial) \<and>
   list_all tickOrStimulate [SendSpike, Frame, SendCustomSpike] \<and>
   floorHolds (run [SendSpike, Frame, SendCustomSpike] (run [SendSpike, SendSpike] initial)) \<and>
   floorHolds (handle (SetMinThreshold 0.5) (run [SendSpike, SendSpike] initial)) \<and>
   \<not> floorHolds (handle (SetMinThreshold 2) (run [SendSpike, SendSpike] initial)) \<and>
   spikeCount (handle SendSpike (run [SendSpike, SendSpike] initial)) = 1 \<and>
   spikeCount (handle SendCustomSpike (run [SendSpike, SendSpike] initial)) = 1 \<and>
   isRefractory_memo ((run [SendSpike, SendSpike] initial)\<lparr>time := 1\<rparr>) \<and>
   floorHolds (handle Frame (run [SendSpike, SendSpike] initial)) \<and>
   \<not> floorHolds (run [SetMinThreshold 2] initial) \<and>
   isRunning (run [SetMinThreshold 2] initial) \<and>
   floorHolds (handle Frame (run [SetMinThreshold 2] initial))"
  using threshold_floor [of "run [SendSpike, SendSpike] initial"
      "[SendSpike, Frame, SendCustomSpike]" 3 "0.5" 2 "[SetMinThreshold 2]"]
  by (simp add: floorHolds_def handler_defs number_defs isRefractory_memo_def initial_def
      updatedSpikeTimes_def constant_defs parseFloat_Nil)

section \<open>The capped buffers\<close>

text \<open>
  C7. After every sequence of events from the initial state, the spike log has at most
  20 and the sample buffer at most 1000 entries. The spike log is the last 20 entries
  of the history of spike times, which is in chronological order and as long as the
  spike count, so after more than 20 spikes it holds exactly the 20 most recent ones.
  The sample buffer is the last 1000 entries of the history of samples, which has one
  entry per tick, so after more than 1000 ticks it holds exactly the 1000 most recent
  ones.
\<close>

theorem buffers_capped:
  "length (spikeTimes (run evs initial)) \<le> 20 \<and>
   length (dataPoints (run evs initial)) \<le> 1000 \<and>
   spikeTimes (run evs initial) = slice_last 20 (spikeLog evs initial []) \<and>
   length (spikeTimes (run evs initial)) = min 20 (length (spikeLog evs initial [])) \<and>
   sorted (spikeLog evs initial []) \<and>
   length (spikeLog evs initial []) = spikeCount (run evs initial) \<and>
   dataPoints (run evs initial) = slice_last 1000 (sampleLog evs initial []) \<and>
   length (dataPoints (run evs initial)) = min 1000 (length (sampleLog evs initial [])) \<and>
   int (length (sampleLog evs initial [])) = time (run evs initial)"
proof -
  have st: "spikeTimes (run evs initial) = slice_last 20 (spikeLog evs initial [])"
    using spikeTimes_run [of initial "[]" evs]
    by (simp add: initial_def slice_last_Nil MAX_SPIKES_DISPLAY_def)
  have dp: "dataPoints (run evs initial) = slice_last 1000 (sampleLog evs initial [])"
    using dataPoints_run [of initial "[]" evs]
    by (simp add: initial_def slice_last_Nil MAX_DATA_POINTS_def)
  have so: "sorted (spikeLog evs initial [])"
    by (rule sorted_spikeLog) simp_all
  have n1: "length (spikeLog evs initial []) = spikeCount (run evs initial)"
    by (rule length_spikeLog) (simp add: initial_def)
  have n2: "int (length (sampleLog evs initial [])) = time (run evs initial)"
    by (rule length_sampleLog) (simp add: initial_def)
  have l1: "length (spikeTimes (run evs initial)) = min 20 (length (spikeLog evs initial []))"
    unfolding st by (simp add: slice_last_def)
  have l2: "length (dataPoints (run evs initial)) = min 1000 (length (sampleLog evs initial []))"
    unfolding dp by (simp add: slice_last_def)
  from st dp so n1 n2 l1 l2 show ?thesis by simp
qed

theorem buffers_capped_witness:
  "spikeCount
     (run (concat (replicate 21 [TypeCustom ''9'', SendCustomSpike, Frame])) initial) = 21 \<and>
   length (spikeTimes
     (run (concat (replicate 21 [TypeCustom ''9'', SendCustomSpike, Frame])) initial)) = 20 \<and>
   spikeTimes
     (run (concat (replicate 21 [TypeCustom ''9'', SendCustomSpike, Frame])) initial) =
     [1, 2, 3, 4, 5, 6, 7, 8, 9, 10, 11, 12, 13, 14, 15, 16, 17, 18, 19, 20]"
proof -
  let ?evs = "concat (replicate 21 [TypeCustom ''9'', SendCustomSpike, Frame])"
  have nine: "parseFloat ''9'' = Fin 9"
    by (simp add: parse_defs)
  have both: "spikeCount (run ?evs initial) = 21 \<and>
      spikeTimes (run ?evs initial) =
        [1, 2, 3, 4, 5, 6, 7, 8, 9, 10, 11, 12, 13, 14, 15, 16, 17, 18, 19, 20]"
    by (simp add: eval_nat_numeral handler_defs number_defs constant_defs initial_def
        updatedSpikeTimes_def slice_last_def nine)
  note caps = buffers_capped [of ?evs]
  from caps have l: "length (spikeTimes (run ?evs initial)) =
      min 20 (length (spikeLog ?evs initial []))"
    by blast
  from caps have n: "length (spikeLog ?evs initial []) = spikeCount (run ?evs initial)"
    by blast
  have "length (spikeTimes (run ?evs initial)) = 20"
    unfolding l n using both by simp
  with both show ?thesis by (intro conjI) simp_all
qed

end
